theory Spec2Isabelle
  imports Main "HOL-Library.Word"
begin

unbundle bit_operations_syntax

section \<open>Bytes, words and errors\<close>

text \<open>
  Go's \<open>byte\<close>, \<open>uint32\<close> and \<open>uint64\<close> are fixed-width words; a \<open>[]byte\<close> is read
  as the list of its elements. Every \<open>error\<close> value the packages return, and a run-time
  panic (slice bounds, division by zero, negative repeat count), is a constructor of
  \<open>error\<close>; a fallible function returns \<open>error + 'a\<close>.
\<close>

type_synonym byte = "8 word"
type_synonym u32 = "32 word"
type_synonym u64 = "64 word"

datatype error =
    ErrInvalidPadding
  | ErrEmptyData
  | ErrInvalidPaddingSize
  | ErrInvalidISO7816
  | ErrPaddingByteNotFound
  | ErrInvalidANSIX923
  | ErrAllZeroData
  | ErrInvalidM1
  | ErrInvalidTBC
  | ErrInvalidKeySize
  | ErrInvalidBlockSize
  | ErrInvalidDataSize
  | ErrInvalidIV
  | ErrInvalidNonce
  | ErrTagMismatch
  | ErrInvalidRounds
  | ErrInvalidWordSize
  | ErrGCMTagSize
  | ErrGCMBlockSize
  | ErrInvalidPrivateKey
  | ErrInvalidPublicKey
  | ErrInvalidCiphertext
  | ErrDecryptionFailed
  | ErrUnsupportedPointFormat
  | ErrC1NotOnCurve
  | Diverges
  | Panic

text \<open>Go's \<open>%\<close> on \<open>int\<close> truncates towards zero; the caller checks the divisor.\<close>

definition go_rem :: "int \<Rightarrow> int \<Rightarrow> int" where
  "go_rem a b = sgn a * (\<bar>a\<bar> mod \<bar>b\<bar>)"

section \<open>Padding schemes\<close>

subsection \<open>Package padding: the scheme collection\<close>

text \<open>
  Every \<open>...Padding\<close> function computes \<open>padding := blockSize - len(data)%blockSize\<close>.
  A zero block size panics in \<open>%\<close>; a negative one gives a negative count, on which
  \<open>bytes.Repeat\<close>, \<open>make\<close> and the index \<open>padtext[0]\<close> panic.
\<close>

definition PKCS7Padding :: "byte list \<Rightarrow> int \<Rightarrow> error + byte list" where
  "PKCS7Padding data blockSize =
     (if blockSize = 0 then Inl Panic
      else let padding = blockSize - go_rem (int (length data)) blockSize in
        if padding < 0 then Inl Panic
        else Inr (data @ replicate (nat padding) (word_of_int padding)))"

definition M1Padding :: "byte list \<Rightarrow> int \<Rightarrow> error + byte list" where
  "M1Padding data blockSize =
     (if blockSize = 0 then Inl Panic
      else let padding = blockSize - go_rem (int (length data)) blockSize in
        if padding - 1 < 0 then Inl Panic
        else Inr (data @ [0x80] @ replicate (nat (padding - 1)) 0x00))"

definition M2Padding :: "byte list \<Rightarrow> int \<Rightarrow> error + byte list" where
  "M2Padding data blockSize =
     (if blockSize = 0 then Inl Panic
      else let padding0 = blockSize - go_rem (int (length data)) blockSize;
               padding = (if padding0 = blockSize then 0 else padding0) in
        if padding < 0 then Inl Panic
        else Inr (data @ replicate (nat padding) 0x00))"

definition ISO7816Padding :: "byte list \<Rightarrow> int \<Rightarrow> error + byte list" where
  "ISO7816Padding data blockSize =
     (if blockSize = 0 then Inl Panic
      else let padding = blockSize - go_rem (int (length data)) blockSize in
        if padding \<le> 0 then Inl Panic
        else Inr (data @ (replicate (nat padding) 0x00)[0 := 0x80]))"

definition ANSIX923Padding :: "byte list \<Rightarrow> int \<Rightarrow> error + byte list" where
  "ANSIX923Padding data blockSize =
     (if blockSize = 0 then Inl Panic
      else let padding = blockSize - go_rem (int (length data)) blockSize in
        if padding \<le> 0 then Inl Panic
        else Inr (data @ (replicate (nat padding) 0x00)[nat (padding - 1) := word_of_int padding]))"

definition ZeroPadding :: "byte list \<Rightarrow> int \<Rightarrow> error + byte list" where
  "ZeroPadding data blockSize =
     (if blockSize = 0 then Inl Panic
      else let padding = blockSize - go_rem (int (length data)) blockSize in
        if padding < 0 then Inl Panic
        else Inr (data @ replicate (nat padding) 0x00))"

definition TBCPadding :: "byte list \<Rightarrow> int \<Rightarrow> error + byte list" where
  "TBCPadding data blockSize =
     (if blockSize = 0 then Inl Panic
      else let padding = blockSize - go_rem (int (length data)) blockSize;
               lastByte = (if length data > 0 then data ! (length data - 1) else 0x00);
               complement = NOT lastByte in
        if padding < 0 then Inl Panic
        else Inr (data @ replicate (nat padding) complement))"

definition PKCS7UnPadding :: "byte list \<Rightarrow> error + byte list" where
  "PKCS7UnPadding data =
     (let len = length data in
      if len = 0 then Inl ErrEmptyData
      else let unpadding = unat (data ! (len - 1)) in
        if unpadding > len then Inl ErrInvalidPaddingSize
        else Inr (take (len - unpadding) data))"

text \<open>
  The backward scans \<open>for i := length - 1; i >= 0; i--\<close>: the counter of the recursion
  is \<open>i + 1\<close>, so that it stops at 0 after the index 0 has been read.
\<close>

fun ISO7816_scan :: "byte list \<Rightarrow> nat \<Rightarrow> error + byte list" where
  "ISO7816_scan data 0 = Inl ErrPaddingByteNotFound"
| "ISO7816_scan data (Suc i) =
     (if data ! i = 0x80 then Inr (take i data)
      else if data ! i \<noteq> 0x00 then Inl ErrInvalidISO7816
      else ISO7816_scan data i)"

definition ISO7816UnPadding :: "byte list \<Rightarrow> error + byte list" where
  "ISO7816UnPadding data =
     (if length data = 0 then Inl ErrEmptyData else ISO7816_scan data (length data))"

text \<open>The forward check \<open>for i := length - unpadding; i < length - 1; i++\<close> of X.923,
  as the number of iterations still to run.\<close>

fun ANSIX923_check :: "byte list \<Rightarrow> nat \<Rightarrow> nat \<Rightarrow> bool" where
  "ANSIX923_check data i 0 = True"
| "ANSIX923_check data i (Suc k) =
     (if data ! i \<noteq> 0x00 then False else ANSIX923_check data (Suc i) k)"

definition ANSIX923UnPadding :: "byte list \<Rightarrow> error + byte list" where
  "ANSIX923UnPadding data =
     (let len = length data in
      if len = 0 then Inl ErrEmptyData
      else let unpadding = unat (data ! (len - 1)) in
        if unpadding > len then Inl ErrInvalidPaddingSize
        else if \<not> ANSIX923_check data (len - unpadding) (unpadding - 1)
          then Inl ErrInvalidANSIX923
        else Inr (take (len - unpadding) data))"

fun Zero_scan :: "byte list \<Rightarrow> nat \<Rightarrow> error + byte list" where
  "Zero_scan data 0 = Inl ErrAllZeroData"
| "Zero_scan data (Suc i) =
     (if data ! i \<noteq> 0x00 then Inr (take (i + 1) data) else Zero_scan data i)"

definition ZeroUnPadding :: "byte list \<Rightarrow> error + byte list" where
  "ZeroUnPadding data =
     (if length data = 0 then Inl ErrEmptyData else Zero_scan data (length data))"

fun M1_scan :: "byte list \<Rightarrow> nat \<Rightarrow> error + byte list" where
  "M1_scan data 0 = Inl ErrPaddingByteNotFound"
| "M1_scan data (Suc i) =
     (if data ! i = 0x80 then Inr (take i data)
      else if data ! i \<noteq> 0x00 then Inl ErrInvalidM1
      else M1_scan data i)"

definition M1UnPadding :: "byte list \<Rightarrow> error + byte list" where
  "M1UnPadding data =
     (if length data = 0 then Inl ErrEmptyData else M1_scan data (length data))"

definition M2UnPadding :: "byte list \<Rightarrow> error + byte list" where
  "M2UnPadding data = ZeroUnPadding data"

fun TBC_scan :: "byte list \<Rightarrow> byte \<Rightarrow> nat \<Rightarrow> error + byte list" where
  "TBC_scan data complement 0 = Inl ErrInvalidTBC"
| "TBC_scan data complement (Suc i) =
     (if data ! i \<noteq> complement then Inr (take (i + 1) data)
      else TBC_scan data complement i)"

definition TBCUnPadding :: "byte list \<Rightarrow> error + byte list" where
  "TBCUnPadding data =
     (let len = length data in
      if len = 0 then Inl ErrEmptyData
      else let lastByte = data ! (len - 1); complement = NOT lastByte in
        TBC_scan data complement len)"

subsection \<open>Files padding/pkcs7.go and padding/zero.go\<close>

text \<open>
  The second implementation of the package returns the padded slice without an error
  value; its only failure is a panic. Its guard \<open>if padding == 0\<close> is kept as written.
\<close>

definition pkcs7go_PKCS7Padding :: "byte list \<Rightarrow> int \<Rightarrow> error + byte list" where
  "pkcs7go_PKCS7Padding data blockSize =
     (if blockSize = 0 then Inl Panic
      else let padding0 = blockSize - go_rem (int (length data)) blockSize;
               padding = (if padding0 = 0 then blockSize else padding0) in
        if padding < 0 then Inl Panic
        else Inr (data @ replicate (nat padding) (word_of_int padding)))"

fun pkcs7go_check :: "byte list \<Rightarrow> byte \<Rightarrow> nat \<Rightarrow> nat \<Rightarrow> bool" where
  "pkcs7go_check data b i 0 = True"
| "pkcs7go_check data b i (Suc k) =
     (if data ! i \<noteq> b then False else pkcs7go_check data b (Suc i) k)"

definition pkcs7go_PKCS7Unpadding :: "byte list \<Rightarrow> error + byte list" where
  "pkcs7go_PKCS7Unpadding data =
     (let len = length data in
      if len = 0 then Inl ErrInvalidPadding
      else let padding = unat (data ! (len - 1)) in
        if padding > len then Inl ErrInvalidPadding
        else if \<not> pkcs7go_check data (word_of_nat padding) (len - padding) padding
          then Inl ErrInvalidPadding
        else Inr (take (len - padding) data))"

definition zerogo_ZeroPadding :: "byte list \<Rightarrow> int \<Rightarrow> error + byte list" where
  "zerogo_ZeroPadding data blockSize =
     (if blockSize = 0 then Inl Panic
      else let padding0 = blockSize - go_rem (int (length data)) blockSize;
               padding = (if padding0 = 0 then blockSize else padding0) in
        if padding < 0 then Inl Panic
        else Inr (data @ replicate (nat padding) 0x00))"

fun zerogo_scan :: "byte list \<Rightarrow> nat \<Rightarrow> byte list" where
  "zerogo_scan data 0 = []"
| "zerogo_scan data (Suc i) =
     (if data ! i \<noteq> 0x00 then take (i + 1) data else zerogo_scan data i)"

definition zerogo_ZeroUnpadding :: "byte list \<Rightarrow> byte list" where
  "zerogo_ZeroUnpadding data = zerogo_scan data (length data)"

text \<open>Unpadding what a padding function returned; a failed padding stays a failure.\<close>

definition unpad_of_pad ::
  "(byte list \<Rightarrow> int \<Rightarrow> error + byte list) \<Rightarrow> (byte list \<Rightarrow> error + byte list)
     \<Rightarrow> byte list \<Rightarrow> int \<Rightarrow> error + byte list" where
  "unpad_of_pad pad unpad x B = (case pad x B of Inl e \<Rightarrow> Inl e | Inr y \<Rightarrow> unpad y)"

subsection \<open>Padding and unpadding are inverse where the scheme is unambiguous\<close>

lemma go_rem_pos: "0 \<le> a \<Longrightarrow> 0 < b \<Longrightarrow> go_rem a b = a mod b"
  by (cases "a = 0") (simp_all add: go_rem_def)

lemma padding_bounds:
  "1 \<le> (B::int) \<Longrightarrow> 1 \<le> B - int n mod B \<and> B - int n mod B \<le> B"
  using pos_mod_bound [of B "int n"] pos_mod_sign [of B "int n"] by linarith

lemma padding_count:
  assumes "1 \<le> (B::int)"
  obtains p where "B - go_rem (int (length x)) B = int p" "1 \<le> p" "int p \<le> B"
    "(int (length x) mod B = 0) = (int p = B)"
proof -
  have g: "go_rem (int (length x)) B = int (length x) mod B" using assms by (simp add: go_rem_pos)
  have b: "1 \<le> B - int (length x) mod B" "B - int (length x) mod B \<le> B"
    using padding_bounds [OF assms, of "length x"] by simp_all
  show thesis
    by (rule that [of "nat (B - int (length x) mod B)"]) (use g b in auto)
qed

lemma unat_byte_of_nat: "p \<le> 255 \<Longrightarrow> unat (word_of_nat p :: byte) = p"
  by (simp add: unat_of_nat)

lemma nth_length_minus_1: "ys \<noteq> [] \<Longrightarrow> ys ! (length ys - 1) = last ys"
  by (simp add: last_conv_nth)

lemma replicate_upd0: "0 < n \<Longrightarrow> (replicate n (0::byte))[0 := c] = c # replicate (n - 1) 0"
  by (cases n) simp_all

lemma replicate_upd_last:
  assumes "0 < n" shows "(replicate n (0::byte))[n - Suc 0 := c] = replicate (n - Suc 0) 0 @ [c]"
proof -
  obtain m where n: "n = Suc m" using assms by (cases n) auto
  have "replicate (Suc m) (0::byte) = replicate m 0 @ [0]" by (simp add: replicate_append_same)
  then have "(replicate (Suc m) (0::byte))[m := c] = (replicate m 0 @ [0])[m := c]" by (simp only:)
  also have "\<dots> = replicate m 0 @ [c]" by (simp add: list_update_append)
  finally show ?thesis by (simp only: n diff_Suc_Suc diff_zero)
qed

lemma PKCS7_roundtrip:
  assumes "1 \<le> B" "B \<le> 255"
  shows "unpad_of_pad PKCS7Padding PKCS7UnPadding x B = Inr x"
proof -
  obtain p where p: "B - go_rem (int (length x)) B = int p" "1 \<le> p" "int p \<le> B"
    using padding_count [OF assms(1)] by metis
  have u: "unat (word_of_nat p :: byte) = p" using p assms by (intro unat_byte_of_nat) auto
  define y where "y = x @ replicate p (word_of_int (int p) :: byte)"
  have pad: "PKCS7Padding x B = Inr y"
    using assms by (simp add: PKCS7Padding_def Let_def p y_def)
  have ly: "length y = length x + p" "y \<noteq> []" using p by (auto simp: y_def)
  have l: "y ! (length y - 1) = word_of_int (int p)"
    using p by (simp only: nth_length_minus_1 [OF ly(2)]) (simp add: y_def)
  have t: "take (length x) y = x" by (simp add: y_def)
  show ?thesis using u l ly t p(2)
    by (simp add: unpad_of_pad_def pad PKCS7UnPadding_def Let_def)
qed

lemma pkcs7go_check_replicate:
  "j \<le> k \<Longrightarrow> pkcs7go_check (xs @ replicate k c) c (length xs + j) (k - j)"
proof (induction "k - j" arbitrary: j)
  case 0 then show ?case by simp
next
  case (Suc d)
  then have "k - j = Suc (k - Suc j)" "Suc j \<le> k" "d = k - Suc j" by auto
  with Suc.hyps(1)[of "Suc j"] show ?case by (simp add: nth_append)
qed

lemma pkcs7go_roundtrip:
  assumes "1 \<le> B" "B \<le> 255"
  shows "unpad_of_pad pkcs7go_PKCS7Padding pkcs7go_PKCS7Unpadding x B = Inr x"
proof -
  obtain p where p: "B - go_rem (int (length x)) B = int p" "1 \<le> p" "int p \<le> B"
    using padding_count [OF assms(1)] by metis
  have u: "unat (word_of_nat p :: byte) = p" using p assms by (intro unat_byte_of_nat) auto
  define y where "y = x @ replicate p (word_of_int (int p) :: byte)"
  have pad: "pkcs7go_PKCS7Padding x B = Inr y"
    using assms p(2) by (simp add: pkcs7go_PKCS7Padding_def Let_def p(1) y_def)
  have ly: "length y = length x + p" "y \<noteq> []" using p by (auto simp: y_def)
  have l: "y ! (length y - 1) = word_of_int (int p)"
    using p by (simp only: nth_length_minus_1 [OF ly(2)]) (simp add: y_def)
  have t: "take (length x) y = x" by (simp add: y_def)
  have c: "pkcs7go_check y (word_of_int (int p)) (length x) p"
    using pkcs7go_check_replicate [of 0 p x "word_of_int (int p)"] by (simp add: y_def)
  show ?thesis using u l ly t c p(2)
    by (simp add: unpad_of_pad_def pad pkcs7go_PKCS7Unpadding_def Let_def)
qed

lemma ISO7816_scan_append: "n \<le> length ys \<Longrightarrow> ISO7816_scan (ys @ zs) n = ISO7816_scan ys n"
  by (induction n) (auto simp: nth_append)

lemma ISO7816_scan_zeros:
  "ISO7816_scan (ys @ replicate k 0x00) (length ys + k) = ISO7816_scan ys (length ys)"
proof (induction k)
  case 0 then show ?case by simp
next
  case (Suc k)
  define w where "w = ys @ replicate k (0x00::byte)"
  have e: "ys @ replicate (Suc k) 0x00 = w @ [0x00]"
    by (simp add: w_def replicate_append_same)
  have lw: "length ys + k = length w" by (simp add: w_def)
  have "ISO7816_scan (w @ [0x00]) (Suc (length w)) = ISO7816_scan (w @ [0x00]) (length w)"
    by simp
  also have "\<dots> = ISO7816_scan w (length w)" by (rule ISO7816_scan_append) simp
  finally show ?case using Suc by (simp only: e add_Suc_right lw) (simp add: w_def)
qed

lemma ISO7816_roundtrip:
  assumes "1 \<le> B"
  shows "unpad_of_pad ISO7816Padding ISO7816UnPadding x B = Inr x"
proof -
  obtain p where p: "B - go_rem (int (length x)) B = int p" "1 \<le> p" "int p \<le> B"
    using padding_count [OF assms(1)] by metis
  have pad: "ISO7816Padding x B = Inr ((x @ [0x80]) @ replicate (p - 1) 0x00)"
    using assms p(2) by (simp add: ISO7816Padding_def Let_def p(1) replicate_upd0)
  have "ISO7816_scan ((x @ [0x80]) @ replicate (p - 1) 0x00) (length (x @ [0x80]) + (p - 1)) = Inr x"
    by (simp only: ISO7816_scan_zeros) simp
  then show ?thesis
    by (simp add: unpad_of_pad_def pad ISO7816UnPadding_def)
qed

lemma M1_scan_append: "n \<le> length ys \<Longrightarrow> M1_scan (ys @ zs) n = M1_scan ys n"
  by (induction n) (auto simp: nth_append)

lemma M1_scan_zeros:
  "M1_scan (ys @ replicate k 0x00) (length ys + k) = M1_scan ys (length ys)"
proof (induction k)
  case 0 then show ?case by simp
next
  case (Suc k)
  define w where "w = ys @ replicate k (0x00::byte)"
  have e: "ys @ replicate (Suc k) 0x00 = w @ [0x00]"
    by (simp add: w_def replicate_append_same)
  have lw: "length ys + k = length w" by (simp add: w_def)
  have "M1_scan (w @ [0x00]) (Suc (length w)) = M1_scan (w @ [0x00]) (length w)"
    by simp
  also have "\<dots> = M1_scan w (length w)" by (rule M1_scan_append) simp
  finally show ?case using Suc by (simp only: e add_Suc_right lw) (simp add: w_def)
qed

lemma M1_roundtrip:
  assumes "1 \<le> B"
  shows "unpad_of_pad M1Padding M1UnPadding x B = Inr x"
proof -
  obtain p where p: "B - go_rem (int (length x)) B = int p" "1 \<le> p" "int p \<le> B"
    using padding_count [OF assms(1)] by metis
  have n: "nat (int p - 1) = p - 1" by simp
  have pad: "M1Padding x B = Inr ((x @ [0x80]) @ replicate (p - 1) 0x00)"
    using assms p(2) by (simp add: M1Padding_def Let_def p(1) n)
  have "M1_scan ((x @ [0x80]) @ replicate (p - 1) 0x00) (length (x @ [0x80]) + (p - 1)) = Inr x"
    by (simp only: M1_scan_zeros) simp
  then show ?thesis
    by (simp add: unpad_of_pad_def pad M1UnPadding_def)
qed

lemma ANSIX923_check_zeros:
  "j \<le> k \<Longrightarrow> ANSIX923_check (xs @ replicate k 0x00 @ zs) (length xs + j) (k - j)"
proof (induction "k - j" arbitrary: j)
  case 0 then show ?case by simp
next
  case (Suc d)
  then have "k - j = Suc (k - Suc j)" "Suc j \<le> k" "d = k - Suc j" "j < k" by auto
  with Suc.hyps(1)[of "Suc j"] show ?case by (simp add: nth_append)
qed

lemma ANSIX923_roundtrip:
  assumes "1 \<le> B" "B \<le> 255"
  shows "unpad_of_pad ANSIX923Padding ANSIX923UnPadding x B = Inr x"
proof -
  obtain p where p: "B - go_rem (int (length x)) B = int p" "1 \<le> p" "int p \<le> B"
    using padding_count [OF assms(1)] by metis
  have u: "unat (word_of_nat p :: byte) = p" using p assms by (intro unat_byte_of_nat) auto
  have n1: "nat (int p - 1) = p - 1" by simp
  define y where "y = x @ replicate (p - 1) 0x00 @ [word_of_int (int p) :: byte]"
  have pad: "ANSIX923Padding x B = Inr y"
    using assms p(2) by (simp add: ANSIX923Padding_def Let_def p(1) n1 replicate_upd_last y_def)
  have ly: "length y = length x + p" "y \<noteq> []" using p by (auto simp: y_def)
  have l: "y ! (length y - 1) = word_of_int (int p)"
    by (simp only: nth_length_minus_1 [OF ly(2)]) (simp add: y_def)
  have c: "ANSIX923_check y (length x) (p - 1)"
    using ANSIX923_check_zeros [of 0 "p - 1" x "[word_of_int (int p)]"] by (simp add: y_def)
  have t: "take (length x) y = x" by (simp add: y_def)
  show ?thesis using u l c t ly p(2)
    by (simp add: unpad_of_pad_def pad ANSIX923UnPadding_def Let_def)
qed

lemma Zero_scan_append: "n \<le> length ys \<Longrightarrow> Zero_scan (ys @ zs) n = Zero_scan ys n"
  by (induction n) (auto simp: nth_append)

lemma Zero_scan_zeros:
  "Zero_scan (ys @ replicate k 0x00) (length ys + k) = Zero_scan ys (length ys)"
proof (induction k)
  case 0 then show ?case by simp
next
  case (Suc k)
  define w where "w = ys @ replicate k (0x00::byte)"
  have e: "ys @ replicate (Suc k) 0x00 = w @ [0x00]"
    by (simp add: w_def replicate_append_same)
  have lw: "length ys + k = length w" by (simp add: w_def)
  have "Zero_scan (w @ [0x00]) (Suc (length w)) = Zero_scan (w @ [0x00]) (length w)"
    by simp
  also have "\<dots> = Zero_scan w (length w)" by (rule Zero_scan_append) simp
  finally show ?case using Suc by (simp only: e add_Suc_right lw) (simp add: w_def)
qed

lemma Zero_scan_last: "x \<noteq> [] \<Longrightarrow> last x \<noteq> 0x00 \<Longrightarrow> Zero_scan x (length x) = Inr x"
  by (cases x rule: rev_cases) (simp_all add: nth_append)

lemma Zero_roundtrip:
  assumes "1 \<le> B" "x \<noteq> []" "last x \<noteq> 0x00"
  shows "unpad_of_pad ZeroPadding ZeroUnPadding x B = Inr x"
proof -
  obtain p where p: "B - go_rem (int (length x)) B = int p" "1 \<le> p" "int p \<le> B"
    using padding_count [OF assms(1)] by metis
  have pad: "ZeroPadding x B = Inr (x @ replicate p 0x00)"
    using assms by (simp add: ZeroPadding_def Let_def p(1))
  show "unpad_of_pad ZeroPadding ZeroUnPadding x B = Inr x"
    using assms(2,3) Zero_scan_zeros [of x p] Zero_scan_last [of x]
    by (simp add: unpad_of_pad_def pad ZeroUnPadding_def)
qed

lemma M2_roundtrip:
  assumes "1 \<le> B" "x \<noteq> []" "last x \<noteq> 0x00"
  shows "unpad_of_pad M2Padding M2UnPadding x B = Inr x"
proof -
  obtain p where p: "B - go_rem (int (length x)) B = int p" "1 \<le> p" "int p \<le> B"
    using padding_count [OF assms(1)] by metis
  define q where "q = (if int p = B then 0 else p)"
  have pad2: "M2Padding x B = Inr (x @ replicate q 0x00)"
    using assms by (simp add: M2Padding_def Let_def p(1) q_def)
  show "unpad_of_pad M2Padding M2UnPadding x B = Inr x"
    using assms(2,3) Zero_scan_zeros [of x q] Zero_scan_last [of x]
    by (simp add: unpad_of_pad_def pad2 ZeroUnPadding_def M2UnPadding_def)
qed

lemma zerogo_scan_append: "n \<le> length ys \<Longrightarrow> zerogo_scan (ys @ zs) n = zerogo_scan ys n"
  by (induction n) (auto simp: nth_append)

lemma zerogo_scan_zeros:
  "zerogo_scan (ys @ replicate k 0x00) (length ys + k) = zerogo_scan ys (length ys)"
proof (induction k)
  case 0 then show ?case by simp
next
  case (Suc k)
  define w where "w = ys @ replicate k (0x00::byte)"
  have e: "ys @ replicate (Suc k) 0x00 = w @ [0x00]"
    by (simp add: w_def replicate_append_same)
  have lw: "length ys + k = length w" by (simp add: w_def)
  have "zerogo_scan (w @ [0x00]) (Suc (length w)) = zerogo_scan (w @ [0x00]) (length w)"
    by simp
  also have "\<dots> = zerogo_scan w (length w)" by (rule zerogo_scan_append) simp
  finally show ?case using Suc by (simp only: e add_Suc_right lw) (simp add: w_def)
qed

lemma zerogo_scan_last: "x \<noteq> [] \<Longrightarrow> last x \<noteq> 0x00 \<Longrightarrow> zerogo_scan x (length x) = x"
  by (cases x rule: rev_cases) (simp_all add: nth_append)

lemma zerogo_roundtrip:
  assumes "1 \<le> B" "x \<noteq> []" "last x \<noteq> 0x00"
  shows "map_sum id zerogo_ZeroUnpadding (zerogo_ZeroPadding x B) = Inr x"
proof -
  obtain p where p: "B - go_rem (int (length x)) B = int p" "1 \<le> p" "int p \<le> B"
    using padding_count [OF assms(1)] by metis
  have pad: "zerogo_ZeroPadding x B = Inr (x @ replicate p 0x00)"
    using assms p(2) by (simp add: zerogo_ZeroPadding_def Let_def p(1))
  show ?thesis
    using assms(2,3) zerogo_scan_zeros [of x p] zerogo_scan_last [of x]
    by (simp add: pad zerogo_ZeroUnpadding_def)
qed

text \<open>
  \<open>TBCUnPadding\<close> compares every byte with the complement of the last byte. The last
  byte differs from its own complement, so the scan stops at once and nothing is removed.
\<close>

lemma byte_neq_NOT: "(b::byte) \<noteq> NOT b"
proof
  assume "b = NOT b"
  then have "bit b 0 = bit (NOT b) 0" by simp
  then show False by (simp add: bit_not_iff)
qed

lemma TBCUnPadding_identity:
  assumes "data \<noteq> []"
  shows "TBCUnPadding data = Inr data"
proof -
  obtain n where n: "length data = Suc n" using assms by (cases data) auto
  have "data ! n \<noteq> NOT (data ! n)" by (rule byte_neq_NOT)
  then show ?thesis by (simp add: TBCUnPadding_def Let_def n)
qed

lemma pkcs7go_check_iff:
  "pkcs7go_check data b i k = (\<forall>j<k. data ! (i + j) = b)"
proof (induction k arbitrary: i)
  case 0 then show ?case by simp
next
  case (Suc k)
  have "(\<forall>j<Suc k. data ! (i + j) = b) = (data ! i = b \<and> (\<forall>j<k. data ! (Suc i + j) = b))"
    by (auto simp: less_Suc_eq_0_disj)
  with Suc show ?case by simp
qed

text \<open>The checking implementation rejects every inconsistent fill.\<close>

lemma pkcs7go_PKCS7Unpadding_rejects:
  assumes "data \<noteq> []" and "m = unat (last data)" and "m \<le> length data"
    and "j < m" and "data ! (length data - m + j) \<noteq> last data"
  shows "pkcs7go_PKCS7Unpadding data = Inl ErrInvalidPadding"
proof -
  have l: "data ! (length data - 1) = last data" using assms(1) by (rule nth_length_minus_1)
  have w: "(word_of_nat (unat (last data)) :: byte) = last data" by simp
  have "\<not> pkcs7go_check data (last data) (length data - m) m"
    unfolding pkcs7go_check_iff using assms(4,5) by blast
  then show ?thesis using assms(1,2,3) l
    by (simp add: pkcs7go_PKCS7Unpadding_def Let_def)
qed

subsection \<open>Claims about the padding schemes\<close>

text \<open>
  C5, as stated: for every scheme (PKCS#7, ISO 7816-4/M1, ANSI X.923, Zero/M2, TBC),
  every input \<open>x\<close> and every block size \<open>B \<ge> 1\<close>, unpadding the padded input gives
  \<open>x\<close> back. It fails for Zero on an input that ends in a zero byte, and for TBC on
  every input: the one-byte inputs below are concrete instances.
\<close>

theorem padding_roundtrip_counterexample:
  "unpad_of_pad ZeroPadding ZeroUnPadding [0x00] 4 = Inl ErrAllZeroData
   \<and> unpad_of_pad TBCPadding TBCUnPadding [0x01] 4 = Inr [0x01, 0xFE, 0xFE, 0xFE]
   \<and> unpad_of_pad TBCPadding TBCUnPadding [0x01] 4 \<noteq> Inr [0x01]"
  by code_simp

text \<open>
  C5, amended: unpadding the padded input gives \<open>x\<close> back for PKCS#7 (both
  implementations) and ANSI X.923 when \<open>1 \<le> B \<le> 255\<close> (the count is stored in one
  byte), for ISO 7816-4 and M1 when \<open>B \<ge> 1\<close>, and for Zero (both implementations) and
  M2 when \<open>B \<ge> 1\<close> and \<open>x\<close> is not empty and does not end in a zero byte.
\<close>

theorem padding_roundtrip:
  "(1 \<le> B \<and> B \<le> 255 \<longrightarrow>
      unpad_of_pad PKCS7Padding PKCS7UnPadding x B = Inr x
    \<and> unpad_of_pad pkcs7go_PKCS7Padding pkcs7go_PKCS7Unpadding x B = Inr x
    \<and> unpad_of_pad ANSIX923Padding ANSIX923UnPadding x B = Inr x)
   \<and> (1 \<le> B \<longrightarrow>
      unpad_of_pad ISO7816Padding ISO7816UnPadding x B = Inr x
    \<and> unpad_of_pad M1Padding M1UnPadding x B = Inr x)
   \<and> (1 \<le> B \<and> x \<noteq> [] \<and> last x \<noteq> 0x00 \<longrightarrow>
      unpad_of_pad ZeroPadding ZeroUnPadding x B = Inr x
    \<and> unpad_of_pad M2Padding M2UnPadding x B = Inr x
    \<and> map_sum id zerogo_ZeroUnpadding (zerogo_ZeroPadding x B) = Inr x)"
  using PKCS7_roundtrip [of B x] pkcs7go_roundtrip [of B x] ANSIX923_roundtrip [of B x]
    ISO7816_roundtrip [of B x] M1_roundtrip [of B x] Zero_roundtrip [of B x]
    M2_roundtrip [of B x] zerogo_roundtrip [of B x]
  by blast

theorem padding_roundtrip_witness:
  "(1::int) \<le> 8 \<and> (8::int) \<le> 255 \<and> [0x61, 0x62, 0x63] \<noteq> ([]::byte list)
   \<and> last [0x61, 0x62, 0x63 :: byte] \<noteq> 0x00
   \<and> unpad_of_pad PKCS7Padding PKCS7UnPadding [0x61, 0x62, 0x63] 8 = Inr [0x61, 0x62, 0x63]
   \<and> unpad_of_pad pkcs7go_PKCS7Padding pkcs7go_PKCS7Unpadding [0x61, 0x62, 0x63] 8
       = Inr [0x61, 0x62, 0x63]
   \<and> unpad_of_pad ANSIX923Padding ANSIX923UnPadding [0x61, 0x62, 0x63] 8 = Inr [0x61, 0x62, 0x63]
   \<and> unpad_of_pad ISO7816Padding ISO7816UnPadding [0x61, 0x62, 0x63] 8 = Inr [0x61, 0x62, 0x63]
   \<and> unpad_of_pad M1Padding M1UnPadding [0x61, 0x62, 0x63] 8 = Inr [0x61, 0x62, 0x63]
   \<and> unpad_of_pad ZeroPadding ZeroUnPadding [0x61, 0x62, 0x63] 8 = Inr [0x61, 0x62, 0x63]
   \<and> unpad_of_pad M2Padding M2UnPadding [0x61, 0x62, 0x63] 8 = Inr [0x61, 0x62, 0x63]
   \<and> map_sum id zerogo_ZeroUnpadding (zerogo_ZeroPadding [0x61, 0x62, 0x63] 8)
       = Inr [0x61, 0x62, 0x63]"
  using padding_roundtrip [of 8 "[0x61, 0x62, 0x63]"] by simp

text \<open>
  C6, as stated: Zero padding appends between 0 and \<open>B - 1\<close> zero bytes and none when
  the length is already a multiple of \<open>B\<close>. On the aligned four-byte input below, with
  \<open>B = 4\<close>, both implementations append a full block of four zero bytes.
\<close>

theorem ZeroPadding_aligned_counterexample:
  "ZeroPadding [0x31, 0x32, 0x33, 0x34] 4 = Inr [0x31, 0x32, 0x33, 0x34, 0x00, 0x00, 0x00, 0x00]
   \<and> zerogo_ZeroPadding [0x31, 0x32, 0x33, 0x34] 4
       = Inr [0x31, 0x32, 0x33, 0x34, 0x00, 0x00, 0x00, 0x00]
   \<and> ZeroPadding [0x31, 0x32, 0x33, 0x34] 4 \<noteq> Inr [0x31, 0x32, 0x33, 0x34]"
  by code_simp

text \<open>
  C6, amended: for \<open>B \<ge> 1\<close> the Zero padding scheme (\<open>ZeroPadding\<close> of both
  implementations) appends between 1 and \<open>B\<close> zero bytes, a full block of \<open>B\<close> when
  the length is already a multiple of \<open>B\<close>; it is \<open>M2Padding\<close> that appends between 0
  and \<open>B - 1\<close> zero bytes and none on aligned data.
\<close>

theorem ZeroPadding_appends_1_to_B:
  assumes "1 \<le> B"
  shows "(\<exists>k. 1 \<le> k \<and> int k \<le> B \<and> (int (length data) mod B = 0 \<longrightarrow> int k = B)
            \<and> ZeroPadding data B = Inr (data @ replicate k 0x00)
            \<and> zerogo_ZeroPadding data B = Inr (data @ replicate k 0x00))
       \<and> (\<exists>k. int k < B \<and> (int (length data) mod B = 0 \<longrightarrow> k = 0)
            \<and> M2Padding data B = Inr (data @ replicate k 0x00))"
proof -
  obtain p where p: "B - go_rem (int (length data)) B = int p" "1 \<le> p" "int p \<le> B"
    "(int (length data) mod B = 0) = (int p = B)"
    using padding_count [OF assms] by metis
  have z: "ZeroPadding data B = Inr (data @ replicate p 0x00)"
    using assms by (simp add: ZeroPadding_def Let_def p(1))
  have zg: "zerogo_ZeroPadding data B = Inr (data @ replicate p 0x00)"
    using assms p(2) by (simp add: zerogo_ZeroPadding_def Let_def p(1))
  define q where "q = (if int p = B then 0 else p)"
  have m2: "M2Padding data B = Inr (data @ replicate q 0x00)"
    using assms by (simp add: M2Padding_def Let_def p(1) q_def)
  have q: "int q < B" "int (length data) mod B = 0 \<longrightarrow> q = 0"
    using p assms by (auto simp: q_def)
  from p z zg have "\<exists>k. 1 \<le> k \<and> int k \<le> B \<and> (int (length data) mod B = 0 \<longrightarrow> int k = B)
            \<and> ZeroPadding data B = Inr (data @ replicate k 0x00)
            \<and> zerogo_ZeroPadding data B = Inr (data @ replicate k 0x00)"
    by blast
  moreover from q m2 have "\<exists>k. int k < B \<and> (int (length data) mod B = 0 \<longrightarrow> k = 0)
            \<and> M2Padding data B = Inr (data @ replicate k 0x00)"
    by blast
  ultimately show ?thesis by blast
qed

theorem ZeroPadding_appends_1_to_B_witness:
  "(1::int) \<le> 4
   \<and> (\<exists>k. 1 \<le> k \<and> int k \<le> 4
          \<and> (int (length [0x31, 0x32, 0x33, 0x34 :: byte]) mod 4 = 0 \<longrightarrow> int k = 4)
          \<and> ZeroPadding [0x31, 0x32, 0x33, 0x34] 4 = Inr ([0x31, 0x32, 0x33, 0x34] @ replicate k 0x00)
          \<and> zerogo_ZeroPadding [0x31, 0x32, 0x33, 0x34] 4
              = Inr ([0x31, 0x32, 0x33, 0x34] @ replicate k 0x00))"
  using ZeroPadding_appends_1_to_B [of 4 "[0x31, 0x32, 0x33, 0x34]"] by simp

text \<open>
  C7: both PKCS#7 unpadding implementations reject an input whose last \<open>m\<close> bytes are
  not all equal to the final byte \<open>m\<close>. On the input \<open>01 02 03 02\<close> the final byte is 2
  and the byte before it is 3: \<open>PKCS7Unpadding\<close> of padding/pkcs7.go returns the error,
  \<open>PKCS7UnPadding\<close> of the scheme collection returns \<open>01 02\<close> without an error.
\<close>

theorem PKCS7UnPadding_accepts_inconsistent_fill:
  "PKCS7UnPadding [0x01, 0x02, 0x03, 0x02] = Inr [0x01, 0x02]
   \<and> pkcs7go_PKCS7Unpadding [0x01, 0x02, 0x03, 0x02] = Inl ErrInvalidPadding"
  by code_simp

section \<open>SM3 hash (sm3/sm3.go)\<close>

subsection \<open>Word helpers\<close>

text \<open>\<open>bits.RotateLeft32(x, k)\<close> of the standard library:
  \<open>s := uint(k) & 31; return x<<s | x>>(32-s)\<close>. It rotates left by \<open>k mod 32\<close>; a
  negative \<open>k\<close> rotates right.\<close>

definition RotateLeft32 :: "u32 \<Rightarrow> int \<Rightarrow> u32" where
  "RotateLeft32 x k = (let s = nat (k mod 32) in push_bit s x OR drop_bit (32 - s) x)"

text \<open>\<open>binary.BigEndian\<close>: \<open>Uint32\<close> reads four bytes, \<open>PutUint32\<close> and \<open>PutUint64\<close>
  write the bytes of a word, most significant first.\<close>

definition be_uint32 :: "byte \<Rightarrow> byte \<Rightarrow> byte \<Rightarrow> byte \<Rightarrow> u32" where
  "be_uint32 b0 b1 b2 b3 =
     (push_bit 24 (ucast b0) OR push_bit 16 (ucast b1) OR push_bit 8 (ucast b2) OR ucast b3)"

definition be_bytes32 :: "u32 \<Rightarrow> byte list" where
  "be_bytes32 v = [ucast (drop_bit 24 v), ucast (drop_bit 16 v), ucast (drop_bit 8 v), ucast v]"

definition be_bytes64 :: "u64 \<Rightarrow> byte list" where
  "be_bytes64 v =
     [ucast (drop_bit 56 v), ucast (drop_bit 48 v), ucast (drop_bit 40 v), ucast (drop_bit 32 v),
      ucast (drop_bit 24 v), ucast (drop_bit 16 v), ucast (drop_bit 8 v), ucast v]"

subsection \<open>Constants (sm3/internal)\<close>

definition IV :: "u32 list" where
  "IV = [0x7380166F, 0x4914B2B9, 0x172442D7, 0xDA8A0600,
         0xA96F30BC, 0x163138AA, 0xE38DEE4D, 0xB0FB0E4E]"

definition T :: "u32 list" where
  "T = replicate 16 0x79CC4519 @ replicate 48 0x7A879D8A"

subsection \<open>The compression function\<close>

definition ff :: "u32 \<Rightarrow> u32 \<Rightarrow> u32 \<Rightarrow> nat \<Rightarrow> u32" where
  "ff x y z j = (if j \<le> 15 then x XOR y XOR z else (x AND y) OR (x AND z) OR (y AND z))"

definition gg :: "u32 \<Rightarrow> u32 \<Rightarrow> u32 \<Rightarrow> nat \<Rightarrow> u32" where
  "gg x y z j = (if j \<le> 15 then x XOR y XOR z else (x AND y) OR ((NOT x) AND z))"

definition p0 :: "u32 \<Rightarrow> u32" where
  "p0 x = x XOR RotateLeft32 x 9 XOR RotateLeft32 x 17"

definition p1 :: "u32 \<Rightarrow> u32" where
  "p1 x = x XOR RotateLeft32 x 15 XOR RotateLeft32 x 23"

text \<open>The first 16 words of \<open>w\<close> are read from the block; the loop
  \<open>for i := 16; i < 68; i++\<close> writes \<open>w[i]\<close>, here appended to the \<open>i\<close> words before it
  (the second argument is the number of iterations left).\<close>

definition load_words :: "byte list \<Rightarrow> u32 list" where
  "load_words p =
     map (\<lambda>i. be_uint32 (p ! (4 * i)) (p ! (4 * i + 1)) (p ! (4 * i + 2)) (p ! (4 * i + 3)))
       [0..<16]"

fun expand :: "nat \<Rightarrow> nat \<Rightarrow> u32 list \<Rightarrow> u32 list" where
  "expand i 0 w = w"
| "expand i (Suc k) w =
     expand (i + 1) k
       (w @ [p1 (w ! (i - 16) XOR w ! (i - 9) XOR RotateLeft32 (w ! (i - 3)) 15)
               XOR RotateLeft32 (w ! (i - 13)) 7 XOR w ! (i - 6)])"

definition w1_of :: "u32 list \<Rightarrow> u32 list" where
  "w1_of w = map (\<lambda>i. w ! i XOR w ! (i + 4)) [0..<64]"

type_synonym sm3_regs = "u32 \<times> u32 \<times> u32 \<times> u32 \<times> u32 \<times> u32 \<times> u32 \<times> u32"

definition round_step :: "u32 list \<Rightarrow> u32 list \<Rightarrow> nat \<Rightarrow> sm3_regs \<Rightarrow> sm3_regs" where
  "round_step w w1 j r =
     (case r of (a, b, c, d, e, f, g, h) \<Rightarrow>
       let ss1 = RotateLeft32 (RotateLeft32 a 12 + e + RotateLeft32 (T ! j) (int j)) 7;
           ss2 = ss1 XOR RotateLeft32 a 12;
           tt1 = ff a b c j + d + ss2 + w1 ! j;
           tt2 = gg e f g j + h + ss1 + w ! j
       in (tt1, a, RotateLeft32 b 9, c, p0 tt2, e, RotateLeft32 f 19, g))"

fun rounds :: "u32 list \<Rightarrow> u32 list \<Rightarrow> nat \<Rightarrow> nat \<Rightarrow> sm3_regs \<Rightarrow> sm3_regs" where
  "rounds w w1 j 0 r = r"
| "rounds w w1 j (Suc k) r = rounds w w1 (Suc j) k (round_step w w1 j r)"

definition compress :: "u32 list \<Rightarrow> byte list \<Rightarrow> u32 list" where
  "compress hs p =
     (let w = expand 16 52 (load_words p);
          w1 = w1_of w
      in case rounds w w1 0 64 (hs ! 0, hs ! 1, hs ! 2, hs ! 3, hs ! 4, hs ! 5, hs ! 6, hs ! 7) of
           (a, b, c, d, e, f, g, h) \<Rightarrow>
             [hs ! 0 XOR a, hs ! 1 XOR b, hs ! 2 XOR c, hs ! 3 XOR d,
              hs ! 4 XOR e, hs ! 5 XOR f, hs ! 6 XOR g, hs ! 7 XOR h])"

text \<open>\<open>block\<close>: the loop \<open>for len(p) >= BlockSize\<close> over the chaining words.\<close>

function block_loop :: "u32 list \<Rightarrow> byte list \<Rightarrow> u32 list" where
  "block_loop hs p = (if length p \<ge> 64 then block_loop (compress hs p) (drop 64 p) else hs)"
  by pat_completeness auto
termination
  by (relation "measure (\<lambda>(hs, p). length p)") auto

declare block_loop.simps [simp del]

subsection \<open>The streaming digest\<close>

record digest =
  digest_h :: "u32 list"
  digest_x :: "byte list"
  digest_nx :: nat
  digest_len :: u64

definition block :: "digest \<Rightarrow> byte list \<Rightarrow> digest" where
  "block d p = d\<lparr>digest_h := block_loop (digest_h d) p\<rparr>"

text \<open>\<open>var d digest\<close> is the zero value: eight zero words, a zero buffer.\<close>

definition zero_digest :: digest where
  "zero_digest = \<lparr>digest_h = replicate 8 0, digest_x = replicate 64 0, digest_nx = 0, digest_len = 0\<rparr>"

definition Reset :: "digest \<Rightarrow> digest" where
  "Reset d = d\<lparr>digest_h := IV, digest_nx := 0, digest_len := 0\<rparr>"

text \<open>\<open>copy(dst[at:], src)\<close> on a buffer: it overwrites
  \<open>min (length dst - at) (length src)\<close> bytes.\<close>

definition copy_into :: "byte list \<Rightarrow> nat \<Rightarrow> byte list \<Rightarrow> byte list" where
  "copy_into dst at src =
     (let n = min (length dst - at) (length src)
      in take at dst @ take n src @ drop (at + n) dst)"

text \<open>\<open>Write\<close> is three conditional statements in sequence over the digest and the
  rest of the input \<open>p\<close>: fill the partly filled buffer, compress the full blocks of
  \<open>p\<close>, keep the remaining bytes in the buffer.\<close>

definition Write_buffer :: "digest \<times> byte list \<Rightarrow> digest \<times> byte list" where
  "Write_buffer dp =
     (case dp of (d, p) \<Rightarrow>
       if digest_nx d > 0 then
         let n = min (64 - digest_nx d) (length p);
             d1 = d\<lparr>digest_x := copy_into (digest_x d) (digest_nx d) p,
                     digest_nx := digest_nx d + n\<rparr>;
             d2 = (if digest_nx d1 = 64
                   then (block d1 (digest_x d1))\<lparr>digest_nx := 0\<rparr> else d1)
         in (d2, drop n p)
       else (d, p))"

definition Write_blocks :: "digest \<times> byte list \<Rightarrow> digest \<times> byte list" where
  "Write_blocks dp =
     (case dp of (d, p) \<Rightarrow>
       if length p \<ge> 64 then
         let n = length p - length p mod 64
         in (block d (take n p), drop n p)
       else (d, p))"

definition Write_rest :: "digest \<times> byte list \<Rightarrow> digest" where
  "Write_rest dp =
     (case dp of (d, p) \<Rightarrow>
       if length p > 0
       then d\<lparr>digest_x := copy_into (digest_x d) 0 p, digest_nx := min 64 (length p)\<rparr>
       else d)"

definition Write :: "digest \<Rightarrow> byte list \<Rightarrow> digest" where
  "Write d p =
     Write_rest (Write_blocks (Write_buffer
       (d\<lparr>digest_len := digest_len d + word_of_nat (length p)\<rparr>, p)))"

text \<open>\<open>checkSum\<close>: \<open>tmp[:1+padLen]\<close> slices a 64-byte array and panics when
  \<open>1 + padLen > 64\<close>; \<open>int(len)\<close> is the 64-bit signed reading of the counter.\<close>

definition checkSum :: "digest \<Rightarrow> error + byte list" where
  "checkSum d =
     (let len = digest_len d;
          tmp = (0x80 :: byte) # replicate 63 0x00;
          padLen0 = 64 - go_rem (sint (len + 1 + 8)) 64;
          padLen = (if padLen0 \<le> 0 then padLen0 + 64 else padLen0)
      in if 1 + padLen > 64 then Inl Panic
         else
           let d1 = Write d (take (nat (1 + padLen)) tmp);
               bits = push_bit 3 len;
               d2 = Write d1 (be_bytes64 bits)
           in if digest_nx d2 \<noteq> 0 then Inl Panic
              else Inr (concat (map be_bytes32 (digest_h d2))))"

text \<open>The method \<open>Sum(in)\<close> works on a copy of the digest and appends to \<open>in\<close>.\<close>

definition digest_Sum :: "digest \<Rightarrow> byte list \<Rightarrow> error + byte list" where
  "digest_Sum d inp = (case checkSum d of Inl e \<Rightarrow> Inl e | Inr hash \<Rightarrow> Inr (inp @ hash))"

text \<open>The package function \<open>Sum(data)\<close>.\<close>

definition Sum :: "byte list \<Rightarrow> error + byte list" where
  "Sum data = checkSum (Write (Reset zero_digest) data)"

subsection \<open>The length counter and the padding computation\<close>

lemma digest_len_Write_buffer: "digest_len (fst (Write_buffer (d, p))) = digest_len d"
  by (simp add: Write_buffer_def Let_def block_def)

lemma digest_len_Write_blocks: "digest_len (fst (Write_blocks (d, p))) = digest_len d"
  by (simp add: Write_blocks_def Let_def block_def)

lemma digest_len_Write_rest: "digest_len (Write_rest (d, p)) = digest_len d"
  by (simp add: Write_rest_def)

lemma digest_len_Write: "digest_len (Write d p) = digest_len d + word_of_nat (length p)"
proof -
  obtain d1 q1 where a: "Write_buffer (d\<lparr>digest_len := digest_len d + word_of_nat (length p)\<rparr>, p) = (d1, q1)"
    by (cases "Write_buffer (d\<lparr>digest_len := digest_len d + word_of_nat (length p)\<rparr>, p)")
  obtain d2 q2 where b: "Write_blocks (d1, q1) = (d2, q2)" by (cases "Write_blocks (d1, q1)")
  have "digest_len d1 = digest_len d + word_of_nat (length p)"
    using digest_len_Write_buffer [of "d\<lparr>digest_len := digest_len d + word_of_nat (length p)\<rparr>" p]
    by (simp add: a)
  moreover have "digest_len d2 = digest_len d1"
    using digest_len_Write_blocks [of d1 q1] by (simp add: b)
  ultimately show ?thesis
    by (simp add: Write_def a b digest_len_Write_rest)
qed

lemma sint_dvd_64:
  assumes "n mod 64 = 55"
  shows "(64::int) dvd sint (word_of_nat n + 1 + 8 :: u64)"
proof -
  define v :: u64 where "v = word_of_nat n + 1 + 8"
  have d: "64 dvd n + 9" using assms by presburger
  have v: "v = word_of_nat (n + 9)" by (simp add: v_def)
  have "take_bit 6 (sint v) = take_bit 6 (uint v)"
    by (simp add: sint_uint take_bit_signed_take_bit)
  also have "\<dots> = take_bit 6 (int (n + 9))"
    unfolding v by (simp only: unsigned_of_nat take_bit_of_nat take_bit_take_bit) simp
  also have "\<dots> = 0" using d by (simp add: take_bit_eq_mod del: of_nat_add) presburger
  finally have "sint v mod 64 = 0" by (simp add: take_bit_eq_mod)
  then show ?thesis unfolding v_def by (rule dvd_eq_mod_eq_0 [THEN iffD2])
qed

lemma go_rem_dvd: "b dvd a \<Longrightarrow> go_rem a b = 0"
  by (auto simp: go_rem_def dvd_abs_iff)

lemma checkSum_panics:
  assumes "digest_len d = word_of_nat n" "n mod 64 = 55"
  shows "checkSum d = Inl Panic"
  using go_rem_dvd [OF sint_dvd_64 [OF assms(2)]]
  by (simp add: checkSum_def Let_def assms(1))


text \<open>
  C1: for every input message, of every length (lengths congruent to 55 mod 64 included),
  \<open>Sum\<close> and \<open>checkSum\<close> return a 32-byte digest, because \<open>1 + padLen \<le> 64\<close>. The code
  computes \<open>padLen = 64 - ((len + 9) % 64)\<close>, which is 64 when \<open>len mod 64 = 55\<close>; the guard
  \<open>padLen <= 0\<close> never fires, and the slice \<open>tmp[:65]\<close> of the 64-byte array panics. This holds
  for the package function \<open>Sum\<close> and for the method \<open>Sum\<close> of a digest that was fed the
  message.
\<close>

theorem Sum_panics_at_55:
  assumes "length data mod 64 = 55"
  shows "Sum data = Inl Panic
       \<and> digest_Sum (Write (Reset zero_digest) data) inp = Inl Panic"
proof -
  have "checkSum (Write (Reset zero_digest) data) = Inl Panic"
    by (rule checkSum_panics [OF _ assms]) (simp add: digest_len_Write Reset_def zero_digest_def)
  then show ?thesis by (simp add: Sum_def digest_Sum_def)
qed

theorem Sum_panics_at_55_witness:
  "length (replicate 55 (0x61::byte)) mod 64 = 55
   \<and> Sum (replicate 55 0x61) = Inl Panic
   \<and> digest_Sum (Write (Reset zero_digest) (replicate 55 0x61)) [] = Inl Panic"
  using Sum_panics_at_55 [of "replicate 55 0x61" "[]"] by simp

subsection \<open>The digest of the message abc\<close>

text \<open>
  The evaluation is staged: the one padded block of the message, its 68 expanded words,
  the 64 words \<open>W'\<close>, the registers after 64 rounds. Every stage is a closed term, so the
  simplifier computes on numerals only.
\<close>

lemma take_bit_32_u32: "take_bit 32 (y::u32) = y"
  by (simp add: take_bit_word_eq_self)

lemma RotateLeft32_numeral:
  "RotateLeft32 x (numeral k) =
     take_bit 32 (push_bit (nat (numeral k mod 32)) x) OR drop_bit (32 - nat (numeral k mod 32)) x"
  unfolding RotateLeft32_def Let_def take_bit_32_u32 ..

lemma RotateLeft32_0: "RotateLeft32 x 0 = x"
  by (simp add: RotateLeft32_def)

lemma RotateLeft32_1:
  "RotateLeft32 x 1 = take_bit 32 (push_bit 1 x) OR drop_bit 31 x"
  by (simp add: RotateLeft32_def take_bit_32_u32)

lemma expand_numeral:
  "expand i (numeral n) w = expand (i + 1) (pred_numeral n)
       (w @ [p1 (w ! (i - 16) XOR w ! (i - 9) XOR RotateLeft32 (w ! (i - 3)) 15)
               XOR RotateLeft32 (w ! (i - 13)) 7 XOR w ! (i - 6)])"
  by (simp add: numeral_eq_Suc)

lemma T_nth: "j < 16 \<Longrightarrow> T ! j = 0x79CC4519" "16 \<le> j \<Longrightarrow> j < 64 \<Longrightarrow> T ! j = 0x7A879D8A"
  by (simp_all add: T_def nth_append)

lemma round_step_eval:
  "round_step w w1 j (a, b, c, d, e, f, g, h) =
     (let ss1 = RotateLeft32 (take_bit 32 (RotateLeft32 a 12 + e + RotateLeft32 (T ! j) (int j))) 7;
           ss2 = ss1 XOR RotateLeft32 a 12;
           tt1 = take_bit 32 (ff a b c j + d + ss2 + w1 ! j);
           tt2 = take_bit 32 (gg e f g j + h + ss1 + w ! j)
       in (tt1, a, RotateLeft32 b 9, c, p0 tt2, e, RotateLeft32 f 19, g))"
  by (simp add: round_step_def take_bit_32_u32)

lemma rounds_numeral:
  "rounds w w1 j (numeral n) r = rounds w w1 (Suc j) (pred_numeral n) (round_step w w1 j r)"
  by (simp add: numeral_eq_Suc)

lemma replicate_numeral: "replicate (numeral n) x = x # replicate (pred_numeral n) x"
  by (simp add: numeral_eq_Suc)

lemma block_loop_single: "length p = 64 \<Longrightarrow> block_loop hs p = compress hs p"
  by (simp add: block_loop.simps [of hs p] block_loop.simps [of _ "[]"])

definition abc_block :: "byte list" where
  "abc_block = [0x61, 0x62, 0x63, 0x80, 0, 0, 0, 0, 0, 0, 0, 0, 0, 0, 0, 0,
                0, 0, 0, 0, 0, 0, 0, 0, 0, 0, 0, 0, 0, 0, 0, 0,
                0, 0, 0, 0, 0, 0, 0, 0, 0, 0, 0, 0, 0, 0, 0, 0,
                0, 0, 0, 0, 0, 0, 0, 0, 0, 0, 0, 0, 0, 0, 0, 0x18]"

definition abc_w :: "u32 list" where
  "abc_w = [1633837952, 0, 0, 0, 0, 0, 0, 0, 0, 0, 0, 0, 0, 0, 0, 24, 2425545216,
      0, 787974, 1906077933, 0, 2147581983, 2476703145, 0, 745513465,
      2913660692, 0, 98334, 2593546121, 1232142408, 600737441, 3000053531,
      3789218616, 4161148935, 90007742, 2261767297, 524582275, 3640802751,
      408459488, 3758495751, 84800860, 3454013516, 2780416341, 2816409988,
      1850133768, 3820666360, 1892328482, 55816016, 2838346913, 1597231058,
      3782176393, 4145015105, 3394527964, 2242445650, 1991205526, 3374497202,
      1748471029, 2539148100, 151029539, 2264591988, 716769456, 1248115792,
      2253286920, 4034815376, 844926840, 2899017745, 3776821725, 3114009925]"

definition abc_w1 :: "u32 list" where
  "abc_w1 = [1633837952, 0, 0, 0, 0, 0, 0, 0, 0, 0, 0, 24, 2425545216, 0, 787974,
      1906077941, 2425545216, 2147581983, 2475916207, 1906077933, 745513465,
      766209803, 2476703145, 98334, 3069836912, 3839618908, 600737441,
      3000020741, 2068626609, 2977372239, 647228959, 874445722, 4271808187,
      553919928, 486928478, 1724501126, 441026783, 350367219, 3185660341,
      1205410179, 1800091732, 777694644, 3581111671, 2760683220, 3345707433,
      3163124266, 2443561643, 4099687953, 1668931197, 3667578496, 2545945631,
      1043158259, 2724458025, 317805078, 2142234037, 1339577286, 1116636229,
      3711758100, 2404313387, 1988398052, 417695688, 3870243905, 1733547989,
      1239572693]"

lemma abc_expand: "expand 16 52 (load_words abc_block) = abc_w"
  by (simp add: abc_block_def abc_w_def load_words_def be_uint32_def upt_conv_Cons
      expand_numeral p1_def RotateLeft32_numeral)

lemma abc_w1_of: "w1_of abc_w = abc_w1"
  by (simp add: abc_w_def abc_w1_def w1_of_def upt_conv_Cons)

lemma abc_rounds:
  "rounds abc_w abc_w1 0 64 (0x7380166F, 0x4914B2B9, 0x172442D7, 0xDA8A0600,
         0xA96F30BC, 0x163138AA, 0xE38DEE4D, 0xB0FB0E4E)
   = (357033627, 737828704, 3335952060, 110813922, 3892900923, 1254346504,
      3404746342, 1068541614)"
  by (simp add: abc_w_def abc_w1_def rounds_numeral round_step_eval T_nth ff_def gg_def p0_def
      RotateLeft32_numeral RotateLeft32_0 RotateLeft32_1 Let_def)

lemma compress_abc:
  "compress IV abc_block
   = [0x66C7F0F4, 0x62EEEDD9, 0xD1F2D46B, 0xDC10E4E2, 0x4167C487, 0x5CF2F7A2, 0x297DA02B, 0x8F4BA8E0]"
proof -
  have "compress IV abc_block =
      (case rounds abc_w abc_w1 0 64 (IV ! 0, IV ! 1, IV ! 2, IV ! 3, IV ! 4, IV ! 5, IV ! 6, IV ! 7) of
           (a, b, c, d, e, f, g, h) \<Rightarrow>
             [IV ! 0 XOR a, IV ! 1 XOR b, IV ! 2 XOR c, IV ! 3 XOR d,
              IV ! 4 XOR e, IV ! 5 XOR f, IV ! 6 XOR g, IV ! 7 XOR h])"
    by (simp only: compress_def Let_def abc_expand abc_w1_of)
  also have "(IV ! 0, IV ! 1, IV ! 2, IV ! 3, IV ! 4, IV ! 5, IV ! 6, IV ! 7) =
      (0x7380166F, 0x4914B2B9, 0x172442D7, 0xDA8A0600, 0xA96F30BC, 0x163138AA, 0xE38DEE4D, 0xB0FB0E4E)"
    by (simp add: IV_def)
  finally show ?thesis by (simp add: abc_rounds IV_def)
qed

lemma Write_abc:
  "Write (Reset zero_digest) [0x61, 0x62, 0x63] =
     \<lparr>digest_h = IV, digest_x = 0x61 # 0x62 # 0x63 # replicate 61 0, digest_nx = 3, digest_len = 3\<rparr>"
  by (simp add: Write_def Write_buffer_def Write_blocks_def Write_rest_def Reset_def zero_digest_def
      copy_into_def replicate_numeral)

lemma checkSum_abc:
  "checkSum \<lparr>digest_h = IV, digest_x = 0x61 # 0x62 # 0x63 # replicate 61 0, digest_nx = 3, digest_len = 3\<rparr>
     = Inr (concat (map be_bytes32 (compress IV abc_block)))"
  by (simp add: checkSum_def Let_def go_rem_def Write_def Write_buffer_def Write_blocks_def
      Write_rest_def be_bytes64_def copy_into_def replicate_numeral block_def block_loop_single
      abc_block_def)


text \<open>
  C8: the SM3 hash of the 3-byte ASCII string \<open>abc\<close> is
  \<open>66c7f0f4 62eeedd9 d1f2d46b dc10e4e2 4167c487 5cf2f7a2 297da02b 8f4ba8e0\<close>.
\<close>

theorem Sum_abc:
  "Sum [0x61, 0x62, 0x63] =
     Inr [0x66, 0xc7, 0xf0, 0xf4, 0x62, 0xee, 0xed, 0xd9, 0xd1, 0xf2, 0xd4, 0x6b, 0xdc, 0x10, 0xe4, 0xe2,
          0x41, 0x67, 0xc4, 0x87, 0x5c, 0xf2, 0xf7, 0xa2, 0x29, 0x7d, 0xa0, 0x2b, 0x8f, 0x4b, 0xa8, 0xe0]"
  by (simp add: Sum_def Write_abc checkSum_abc compress_abc be_bytes32_def)

end
